theory Spec2Isabelle
  imports Complex_Main "HOL-Library.Word" "HOL-Library.AList"
begin

unbundle bit_operations_syntax

section \<open>Conventions of the embedding\<close>

text \<open>
  JavaScript numbers are modelled by \<^typ>\<open>real\<close> where the source computes with fractions
  (positions, pressures, times, normalised values) and by \<^typ>\<open>int\<close> where it computes with
  whole numbers (string indices, MIDI bytes, octaves). Rounding of IEEE doubles, NaN and the
  infinities are not part of the model; where the source would produce one of the latter
  (a division by zero), the model says so explicitly instead of using HOL's \<open>x / 0 = 0\<close>.
  \<open>undefined\<close> is \<^const>\<open>None\<close>, and so is a parameter left out where the source gives it a
  default. \<open>Date.now()\<close> is an argument of \<open>strum\<close> and the clock of the window in which
  the MIDI scheduler runs. Strings are taken to be ASCII. The fields \<open>notation\<close> and
  \<open>_notes\<close> are called \<open>note_notation\<close> and \<open>note_list\<close> here.
\<close>

text \<open>Reading \<open>xs[i]\<close>: \<open>undefined\<close> outside \<open>0 .. length - 1\<close>.\<close>

definition js_nth :: "'a list \<Rightarrow> int \<Rightarrow> 'a option" where
  "js_nth xs i = (if 0 \<le> i \<and> i < int (length xs) then Some (xs ! nat i) else None)"

section \<open>Notes (note.ts)\<close>

text \<open>\<open>NoteObject = { notation: string; octave: number; secondary?: boolean }\<close>\<close>

record NoteObject =
  note_notation :: string
  octave :: int
  secondary :: "bool option"

section \<open>The strummer (strummer.ts)\<close>

text \<open>\<open>StrumResult\<close>: a strum carries its notes, a release its velocity. A note read from
  outside the note list is \<open>undefined\<close>.\<close>

datatype StrumResult =
  Strum "(NoteObject option \<times> int) list"
| Release int

record Strummer =
  width :: real
  height :: real
  note_list :: "NoteObject list"
  lastStrummedIndex :: int
  lastPressure :: real
  lastTimestamp :: real
  pressureThreshold :: real
  lastStrumVelocity :: int
  pressureBuffer :: "(real \<times> real) list"
  bufferMaxSamples :: nat
  pendingTapIndex :: int

text \<open>The field initialisers of the class.\<close>

definition new_Strummer :: Strummer where
  "new_Strummer =
     \<lparr> width = 1, height = 1, note_list = [], lastStrummedIndex = -1, lastPressure = 0,
       lastTimestamp = 0, pressureThreshold = 1 / 10, lastStrumVelocity = 0,
       pressureBuffer = [], bufferMaxSamples = 3, pendingTapIndex = -1 \<rparr>"

definition updateBounds :: "real \<Rightarrow> real \<Rightarrow> Strummer \<Rightarrow> Strummer" where
  "updateBounds w h s = s\<lparr>width := w, height := h\<rparr>"

text \<open>The setter of \<open>notes\<close>; the \<open>notes_changed\<close> notification has no effect on the state.\<close>

definition set_notes :: "NoteObject list \<Rightarrow> Strummer \<Rightarrow> Strummer" where
  "set_notes ns s = updateBounds (width s) (height s) (s\<lparr>note_list := ns\<rparr>)"

text \<open>\<open>configure(_pluckVelocityScale = 4.0, pressureThreshold = 0.1)\<close>: a missing argument
  (\<open>None\<close>) takes its default.\<close>

definition configure :: "real option \<Rightarrow> real option \<Rightarrow> Strummer \<Rightarrow> Strummer" where
  "configure pluckVelocityScale_opt pressureThreshold_opt s =
     (let pluckVelocityScale = (case pluckVelocityScale_opt of None \<Rightarrow> 4 | Some v \<Rightarrow> v);
          threshold = (case pressureThreshold_opt of None \<Rightarrow> 1 / 10 | Some v \<Rightarrow> v)
      in s\<lparr>pressureThreshold := threshold\<rparr>)"

definition clearStrum :: "Strummer \<Rightarrow> Strummer" where
  "clearStrum s =
     s\<lparr>lastStrummedIndex := -1, lastPressure := 0, lastTimestamp := 0,
       lastStrumVelocity := 0, pressureBuffer := [], pendingTapIndex := -1\<rparr>"

text \<open>Lines 68-69 of \<open>strum\<close>: the string under position \<open>x\<close>, for a non-empty note list and
  a non-zero string width: \<open>Math.min(Math.floor(x / stringWidth), notes.length - 1)\<close>.\<close>

definition stringWidth :: "Strummer \<Rightarrow> real" where
  "stringWidth s = width s / real (length (note_list s))"

definition strum_index :: "Strummer \<Rightarrow> real \<Rightarrow> int" where
  "strum_index s x = min \<lfloor>x / stringWidth s\<rfloor> (int (length (note_list s)) - 1)"

text \<open>The indices crossed between the last strummed string and the new one: the two
  counting loops of \<open>strum\<close>.\<close>

definition crossed_indices :: "int \<Rightarrow> int \<Rightarrow> int list" where
  "crossed_indices last_index index =
     (if last_index < index then [last_index + 1 .. index]
      else rev [index .. last_index - 1])"

text \<open>\<open>strum(x, pressure)\<close> with the clock reading \<open>currentTime\<close> (seconds). The result is
  the returned event (\<open>None\<close> for \<open>null\<close>) and the new state. The outer \<open>None\<close> stands for the
  two places where the source divides by zero and the quotient is not a number of this
  model: a string width of zero, and a threshold of exactly 1 when the tap velocity is
  normalised.\<close>

definition strum ::
  "real \<Rightarrow> real \<Rightarrow> real \<Rightarrow> Strummer \<Rightarrow> (StrumResult option \<times> Strummer) option" where
  "strum x pressure currentTime s =
    (if length (note_list s) = 0 then Some (None, s)
     else if stringWidth s = 0 then None
     else
      let index = strum_index s x;
          hasSufficientPressure = (pressure \<ge> pressureThreshold s);
          pressureDown = (lastPressure s < pressureThreshold s \<and> pressure \<ge> pressureThreshold s);
          pressureUp = (lastPressure s \<ge> pressureThreshold s \<and> pressure < pressureThreshold s)
      in
      if pressureUp then
        let releaseVelocity = lastStrumVelocity s;
            s1 = s\<lparr>lastStrummedIndex := -1, lastPressure := pressure,
                   lastTimestamp := currentTime, pressureBuffer := [],
                   pendingTapIndex := -1, lastStrumVelocity := 0\<rparr>
        in Some (if releaseVelocity > 0 then Some (Release releaseVelocity) else None, s1)
      else if pressureDown \<and> (lastStrummedIndex s = -1 \<or> lastStrummedIndex s \<noteq> index) then
        Some (None,
          s\<lparr>pressureBuffer := [(lastPressure s, lastTimestamp s), (pressure, currentTime)],
            pendingTapIndex := index, lastPressure := pressure, lastTimestamp := currentTime\<rparr>)
      else if hasSufficientPressure \<and> lastStrummedIndex s = -1 \<and> pendingTapIndex s = -1 then
        Some (None,
          s\<lparr>pressureBuffer := [(pressure, currentTime)],
            pendingTapIndex := index, lastPressure := pressure, lastTimestamp := currentTime\<rparr>)
      else if pendingTapIndex s \<noteq> -1 \<and> length (pressureBuffer s) < bufferMaxSamples s then
        let s1 = s\<lparr>pressureBuffer := pressureBuffer s @ [(pressure, currentTime)],
                   lastPressure := pressure, lastTimestamp := currentTime\<rparr>
        in
        if length (pressureBuffer s1) \<ge> bufferMaxSamples s1 then
          if 1 - pressureThreshold s1 = 0 then None
          else
          let currentPressure = pressure;
              normalizedPressure =
                (currentPressure - pressureThreshold s1) / (1 - pressureThreshold s1);
              clampedPressure = max 0 (min 1 normalizedPressure);
              midiVelocity0 = \<lfloor>20 + clampedPressure * 107\<rfloor>;
              midiVelocity = max 20 (min 127 midiVelocity0);
              note = js_nth (note_list s1) (pendingTapIndex s1)
          in Some (Some (Strum [(note, midiVelocity)]),
               s1\<lparr>lastStrumVelocity := midiVelocity,
                  lastStrummedIndex := pendingTapIndex s1,
                  pendingTapIndex := -1, pressureBuffer := []\<rparr>)
        else Some (None, s1)
      else
        let s1 = s\<lparr>lastPressure := pressure, lastTimestamp := currentTime\<rparr> in
        if hasSufficientPressure \<and> lastStrummedIndex s1 \<noteq> -1 \<and> lastStrummedIndex s1 \<noteq> index then
          let midiVelocity = max 20 \<lfloor>pressure * 127\<rfloor>;
              indices = crossed_indices (lastStrummedIndex s1) index;
              notesToPlay = map (\<lambda>i. (js_nth (note_list s1) i, midiVelocity)) indices
          in Some (if length notesToPlay > 0 then Some (Strum notesToPlay) else None,
               s1\<lparr>lastStrumVelocity := midiVelocity, lastStrummedIndex := index\<rparr>)
        else Some (None, s1))"

text \<open>A sequence of samples \<open>(x, pressure, currentTime)\<close>, processed in order: the events
  returned, one per sample, and the final state.\<close>

fun strum_all ::
  "(real \<times> real \<times> real) list \<Rightarrow> Strummer \<Rightarrow> (StrumResult option list \<times> Strummer) option" where
  "strum_all [] s = Some ([], s)"
| "strum_all ((x, pressure, currentTime) # rest) s =
     (case strum x pressure currentTime s of
        None \<Rightarrow> None
      | Some (e, s1) \<Rightarrow>
          (case strum_all rest s1 of
             None \<Rightarrow> None
           | Some (es, s2) \<Rightarrow> Some (e # es, s2)))"

text \<open>The state in which a strum is held on string \<open>i\<close>: \<open>i\<close> is the last strummed index,
  no tap is being buffered, and the last sample's pressure was at or above the threshold.\<close>

definition held_on :: "Strummer \<Rightarrow> int \<Rightarrow> bool" where
  "held_on s i =
     (lastStrummedIndex s = i \<and> pendingTapIndex s = -1 \<and> pressureThreshold s \<le> lastPressure s)"

text \<open>Three strings used by the concrete runs below.\<close>

definition example_notes :: "NoteObject list" where
  "example_notes =
     [\<lparr>note_notation = ''C'', octave = 4, secondary = None\<rparr>,
      \<lparr>note_notation = ''E'', octave = 4, secondary = None\<rparr>,
      \<lparr>note_notation = ''G'', octave = 4, secondary = None\<rparr>]"

section \<open>Strings and numbers of JavaScript\<close>

text \<open>\<open>xs.indexOf(x)\<close>: the first position of \<open>x\<close>, or \<open>-1\<close>.\<close>

fun indexOf :: "'a list \<Rightarrow> 'a \<Rightarrow> int" where
  "indexOf [] x = -1"
| "indexOf (y # ys) x =
     (if y = x then 0 else (let r = indexOf ys x in if r = -1 then -1 else r + 1))"

text \<open>\<open>parseInt(c)\<close> of a string of at most one character: the digit, or NaN (\<open>None\<close>).
  The argument is what \<open>charAt\<close> returned: \<open>[c]\<close>, or \<open>[]\<close> past the end.\<close>

definition parseInt_char :: "string \<Rightarrow> int option" where
  "parseInt_char c =
     (case c of
        [d] \<Rightarrow> (let i = indexOf ''0123456789'' d in if i = -1 then None else Some i)
      | _ \<Rightarrow> None)"

definition charAt :: "string \<Rightarrow> int \<Rightarrow> string" where
  "charAt str i = (case js_nth str i of None \<Rightarrow> [] | Some c \<Rightarrow> [c])"

text \<open>\<open>String(n)\<close> for a whole number \<open>n\<close>: decimal digits, with a minus sign below zero.\<close>

fun string_of_nat :: "nat \<Rightarrow> string" where
  "string_of_nat n =
     (if n < 10 then [''0123456789'' ! n]
      else string_of_nat (n div 10) @ [''0123456789'' ! (n mod 10)])"

declare string_of_nat.simps [simp del]

definition String_of_int :: "int \<Rightarrow> string" where
  "String_of_int i = (if i < 0 then CHR ''-'' # string_of_nat (nat (- i)) else string_of_nat (nat i))"

text \<open>\<open>parts.join(sep)\<close>\<close>

fun join :: "string \<Rightarrow> string list \<Rightarrow> string" where
  "join sep [] = []"
| "join sep [p] = p"
| "join sep (p # q # rest) = p @ sep @ join sep (q # rest)"

text \<open>\<open>a % b\<close>: the remainder has the sign of the dividend.\<close>

definition js_rem :: "int \<Rightarrow> int \<Rightarrow> int" where
  "js_rem a b = sgn a * (\<bar>a\<bar> mod \<bar>b\<bar>)"

text \<open>\<open>a << k\<close> for whole numbers: the left operand as a 32-bit integer, the shift count
  modulo 32, the result read as a signed 32-bit integer.\<close>

definition js_shl :: "int \<Rightarrow> nat \<Rightarrow> int" where
  "js_shl a k = sint (push_bit (k mod 32) (word_of_int a :: 32 word))"

section \<open>Note theory (note.ts)\<close>

definition sharpNotations :: "string list" where
  "sharpNotations = [''C'', ''C#'', ''D'', ''D#'', ''E'', ''F'', ''F#'', ''G'', ''G#'', ''A'', ''A#'', ''B'']"

definition flatNotations :: "string list" where
  "flatNotations = [''C'', ''Db'', ''D'', ''Eb'', ''E'', ''F'', ''Gb'', ''G'', ''Ab'', ''A'', ''Bb'', ''B'']"

definition oddNotations :: "string list" where
  "oddNotations = [''B#'', ''Cb'', ''E#'', ''Fb'']"

definition correctedNotations :: "string list" where
  "correctedNotations = [''C'', ''C'', ''F'', ''F'']"

definition indexOfNotation :: "string \<Rightarrow> int" where
  "indexOfNotation nt =
     (let index = indexOf sharpNotations nt
      in if index = -1 then indexOf flatNotations nt else index)"

text \<open>\<open>parseNotation\<close>: a trailing digit is the octave (then a string of length 3 keeps its
  first two characters as notation, any other length its first); without one the octave is 4
  and the whole string is the notation.\<close>

definition parseNotation :: "string \<Rightarrow> NoteObject" where
  "parseNotation nt =
     (let octave_char = charAt nt (int (length nt) - 1)
      in case parseInt_char octave_char of
           Some d \<Rightarrow>
             \<lparr>note_notation = (if length nt = 3 then charAt nt 0 @ charAt nt 1 else charAt nt 0),
              octave = d, secondary = None\<rparr>
         | None \<Rightarrow> \<lparr>note_notation = nt, octave = 4, secondary = None\<rparr>)"

definition notationToMIDI :: "string \<Rightarrow> int" where
  "notationToMIDI nt =
     (let ntObj = parseNotation nt;
          ntindx0 = indexOf sharpNotations (note_notation ntObj);
          ntindx = (if ntindx0 = -1 then indexOf flatNotations (note_notation ntObj) else ntindx0)
      in octave ntObj * int (length sharpNotations) + ntindx)"

text \<open>\<open>getFrequencyForNotation\<close>; \<open>Math.pow(2, y)\<close> is \<open>2 powr y\<close>. The result is \<open>undefined\<close>
  for a string that is no note name.\<close>

definition getFrequencyForNotation :: "string \<Rightarrow> real option" where
  "getFrequencyForNotation nt0 =
     (let last_char = charAt nt0 (int (length nt0) - 1);
          (octave, nt1) = (case parseInt_char last_char of
                             Some d \<Rightarrow> (d, take (length nt0 - 1) nt0)
                           | None \<Rightarrow> (4, nt0));
          nt = (if indexOf oddNotations nt1 \<noteq> -1
                then (case js_nth correctedNotations (indexOf oddNotations nt1) of
                        Some c \<Rightarrow> c | None \<Rightarrow> nt1)
                else nt1);
          indx0 = indexOf sharpNotations nt;
          indx1 = (if indx0 = -1 then indexOf flatNotations nt else indx0)
      in if indx1 \<noteq> -1
         then (let indx = indx1 + (octave - 4) * int (length sharpNotations)
               in Some (440 * (2 powr (real_of_int indx / 12))))
         else None)"

text \<open>The interval table of \<open>parseChord\<close>, in the order of the source.\<close>

definition chordIntervals :: "(string \<times> int list) list" where
  "chordIntervals =
     [(''maj'', [0, 4, 7]), (''min'', [0, 3, 7]), (''m'', [0, 3, 7]), (''dim'', [0, 3, 6]),
      (''aug'', [0, 4, 8]), (''sus2'', [0, 2, 7]), (''sus4'', [0, 5, 7]), (''5'', [0, 7]),
      (''7'', [0, 4, 7, 10]), (''maj7'', [0, 4, 7, 11]), (''min7'', [0, 3, 7, 10]),
      (''m7'', [0, 3, 7, 10]), (''dim7'', [0, 3, 6, 9]), (''aug7'', [0, 4, 8, 10]),
      (''maj9'', [0, 4, 7, 11, 14]), (''min9'', [0, 3, 7, 10, 14]), (''m9'', [0, 3, 7, 10, 14]),
      (''9'', [0, 4, 7, 10, 14]), (''add9'', [0, 4, 7, 14]), (''6'', [0, 4, 7, 9]),
      (''min6'', [0, 3, 7, 9]), (''m6'', [0, 3, 7, 9])]"

text \<open>\<open>parseChord(chordNotation, octave = 4)\<close>. Each chord tone is \<open>{notation, octave}\<close>; its
  notation is \<open>undefined\<close> (\<open>None\<close>) when the root is no note name. The table is looked up by
  its own keys only (the properties that a JavaScript object literal inherits, such as
  \<open>constructor\<close>, are not modelled); the warning logged for an unknown chord type has no
  effect on the result.\<close>

definition parseChord :: "string \<Rightarrow> int option \<Rightarrow> (string option \<times> int) list" where
  "parseChord chordNotation octave_opt =
     (let octave = (case octave_opt of None \<Rightarrow> 4 | Some v \<Rightarrow> v);
          (root, chordType0) =
             (if length chordNotation \<ge> 2 \<and>
                 (charAt chordNotation 1 = ''#'' \<or> charAt chordNotation 1 = ''b'')
              then (take 2 chordNotation, drop 2 chordNotation)
              else (case js_nth chordNotation 0 of
                      Some c \<Rightarrow> [c]
                    | None \<Rightarrow> ''undefined'',
                    drop 1 chordNotation));
          chordType = (if chordType0 = [] then ''maj'' else chordType0);
          intervals = (case map_of chordIntervals chordType of
                         Some iv \<Rightarrow> iv
                       | None \<Rightarrow> [0, 4, 7]);
          rootNote = parseNotation (root @ String_of_int octave);
          rootIndex = indexOfNotation (note_notation rootNote)
      in map (\<lambda>interval.
                let noteIndex = js_rem (rootIndex + interval) 12;
                    noteOctave = octave + (rootIndex + interval) div 12
                in (js_nth sharpNotations noteIndex, noteOctave))
             intervals)"

section \<open>The byte decoder and the effect engine (data-helpers.ts)\<close>

text \<open>The loop of \<open>parseMultiByteRangeData\<close>: \<open>i\<close> is the loop counter, \<open>v\<close> the value so
  far. A byte read outside the report is \<open>undefined\<close>, which \<open><<\<close> takes as 0.\<close>

fun combine_bytes :: "int list \<Rightarrow> int list \<Rightarrow> nat \<Rightarrow> int \<Rightarrow> int" where
  "combine_bytes data [] i v = v"
| "combine_bytes data (byteIdx # rest) i v =
     combine_bytes data rest (i + 1)
       (if byteIdx < int (length data)
        then v + js_shl (case js_nth data byteIdx of None \<Rightarrow> 0 | Some d \<Rightarrow> d) (8 * i)
        else v)"

text \<open>\<open>parseMultiByteRangeData(data, byteIndices, minVal = 0, maxVal = 0)\<close>; a missing
  \<open>byteIndices\<close> is \<open>None\<close>.\<close>

definition parseMultiByteRangeData ::
  "int list \<Rightarrow> int list option \<Rightarrow> real option \<Rightarrow> real option \<Rightarrow> real" where
  "parseMultiByteRangeData data byteIndices_opt minVal_opt maxVal_opt =
     (let minVal = (case minVal_opt of None \<Rightarrow> 0 | Some v \<Rightarrow> v);
          maxVal = (case maxVal_opt of None \<Rightarrow> 0 | Some v \<Rightarrow> v)
      in case byteIndices_opt of
           None \<Rightarrow> 0
         | Some byteIndices \<Rightarrow>
             if length byteIndices = 0 then 0
             else
               let v = combine_bytes data byteIndices 0 0
               in if maxVal = minVal then 0
                  else (real_of_int v - minVal) / (maxVal - minVal))"

text \<open>The value the specification gives a multi-byte field before normalisation: byte \<open>i\<close>
  of the selected bytes shifted left by \<open>8 * i\<close>.\<close>

definition little_endian :: "int list \<Rightarrow> int" where
  "little_endian bytes = (\<Sum>i < length bytes. bytes ! i * 2 ^ (8 * i))"

text \<open>\<open>applyCurve(value, curve = 1.0, inputRange = [0.0, 1.0])\<close>. \<open>None\<close> is the NaN of
  \<open>0 / 0\<close>, which a curve exponent of 0 produces strictly inside the range.\<close>

definition applyCurve :: "real \<Rightarrow> real option \<Rightarrow> (real \<times> real) option \<Rightarrow> real option" where
  "applyCurve v curve_opt inputRange_opt =
     (let curve = (case curve_opt of None \<Rightarrow> 1 | Some c \<Rightarrow> c);
          (minVal, maxVal) = (case inputRange_opt of None \<Rightarrow> (0, 1) | Some r \<Rightarrow> r)
      in if v \<le> minVal then Some minVal
         else if v \<ge> maxVal then Some maxVal
         else if curve = 1 then Some v
         else if exp curve - 1 = 0 then None
         else
           let normalized = (v - minVal) / (maxVal - minVal);
               curved = (exp (curve * normalized) - 1) / (exp curve - 1)
           in Some (minVal + curved * (maxVal - minVal)))"

text \<open>\<open>calculateEffectValue(inputValue, minVal, maxVal, multiplier = 1.0, curve = 1.0,
  spread = 'direct')\<close>\<close>

definition calculateEffectValue ::
  "real \<Rightarrow> real \<Rightarrow> real \<Rightarrow> real option \<Rightarrow> real option \<Rightarrow> string option \<Rightarrow> real option" where
  "calculateEffectValue inputValue minVal maxVal multiplier_opt curve_opt spread_opt =
     (let multiplier = (case multiplier_opt of None \<Rightarrow> 1 | Some m \<Rightarrow> m);
          curve = (case curve_opt of None \<Rightarrow> 1 | Some c \<Rightarrow> c);
          spread = (case spread_opt of None \<Rightarrow> ''direct'' | Some sp \<Rightarrow> sp);
          scaledInput0 = inputValue * multiplier;
          scaledInput = max 0 (min 1 scaledInput0)
      in if spread = ''central'' then
           (let distanceFromCenter = \<bar>scaledInput - 1 / 2\<bar> * 2
            in case applyCurve distanceFromCenter (Some curve) (Some (0, 1)) of
                 None \<Rightarrow> None
               | Some curvedDistance \<Rightarrow> Some (maxVal - curvedDistance * (maxVal - minVal)))
         else if spread = ''inverse'' then
           (case applyCurve scaledInput (Some curve) (Some (0, 1)) of
              None \<Rightarrow> None
            | Some curvedValue \<Rightarrow> Some (maxVal - curvedValue * (maxVal - minVal)))
         else
           (case applyCurve scaledInput (Some curve) (Some (0, 1)) of
              None \<Rightarrow> None
            | Some curvedValue \<Rightarrow> Some (minVal + curvedValue * (maxVal - minVal))))"

section \<open>The MIDI output scheduler (midi.ts)\<close>

text \<open>
  The part of the \<open>Midi\<close> object that the send operations read and write. \<open>midiOut\<close> is
  \<open>None\<close> while there is no output port; an output port is modelled by the messages it has
  been sent, oldest first. The two JavaScript \<open>Map\<close>s are association lists (a \<open>Map\<close> keeps
  insertion order) read with \<^const>\<open>map_of\<close>; a timer handle is the number that
  \<open>window.setTimeout\<close> returned.
\<close>

record Midi =
  midiOut :: "int list list option"
  midiStrumChannel :: "int option"
  activeNoteTimers :: "(string \<times> nat) list"
  noteStartTimes :: "(string \<times> real) list"

text \<open>A pending timeout of the window: its handle, the time (milliseconds) at which it is
  due, and what the callback closed over (\<open>noteKey\<close>, \<open>midiNote\<close>, \<open>channels\<close>).\<close>

record Timer =
  handle :: nat
  fire_at :: real
  timer_key :: string
  timer_note :: int
  timer_channels :: "int list"

text \<open>The \<open>Midi\<close> object together with the window it runs in: the clock \<open>Date.now()\<close>
  in milliseconds, the pending timeouts in the order of their creation, and the next
  handle \<open>setTimeout\<close> will return.\<close>

record World =
  midi :: Midi
  now :: real
  timeouts :: "Timer list"
  next_handle :: nat

text \<open>\<open>new Midi(midiStrumChannel)\<close> in a window whose clock reads \<open>t0\<close>.\<close>

definition new_World :: "int option \<Rightarrow> real \<Rightarrow> World" where
  "new_World ch t0 =
     \<lparr> midi = \<lparr> midiOut = None, midiStrumChannel = ch, activeNoteTimers = [], noteStartTimes = [] \<rparr>,
       now = t0, timeouts = [], next_handle = 1 \<rparr>"

text \<open>What \<open>refreshConnection\<close> does to \<open>midiOut\<close> when an output port exists.\<close>

definition connect_output :: "World \<Rightarrow> World" where
  "connect_output W =
     W\<lparr>midi := (midi W)\<lparr>midiOut := Some (case midiOut (midi W) of None \<Rightarrow> [] | Some l \<Rightarrow> l)\<rparr>\<rparr>"

text \<open>\<open>this.midiOut.send(message)\<close>, for each message in turn.\<close>

definition send_all :: "int list list \<Rightarrow> World \<Rightarrow> World" where
  "send_all msgs W =
     W\<lparr>midi := (midi W)\<lparr>midiOut := map_option (\<lambda>l. l @ msgs) (midiOut (midi W))\<rparr>\<rparr>"

definition clearTimeout :: "nat \<Rightarrow> World \<Rightarrow> World" where
  "clearTimeout h W = W\<lparr>timeouts := filter (\<lambda>t. handle t \<noteq> h) (timeouts W)\<rparr>"

text \<open>\<open>window.setTimeout(callback, delay)\<close>: a negative delay counts as 0. The handle
  returned is \<open>next_handle\<close> of the world before the call.\<close>

definition setTimeout :: "string \<Rightarrow> int \<Rightarrow> int list \<Rightarrow> real \<Rightarrow> World \<Rightarrow> World" where
  "setTimeout noteKey midiNote channels delay W =
     W\<lparr>timeouts := timeouts W @
          [\<lparr>handle = next_handle W, fire_at = now W + max 0 delay, timer_key = noteKey,
            timer_note = midiNote, timer_channels = channels\<rparr>],
       next_handle := next_handle W + 1\<rparr>"

text \<open>The channels a strum message goes to: the configured channel (1-16, sent as 0-15),
  else all sixteen.\<close>

definition all_channels :: "int list" where
  "all_channels = [0 .. 15]"

definition strum_channels :: "World \<Rightarrow> int list" where
  "strum_channels W =
     (case midiStrumChannel (midi W) of Some c \<Rightarrow> [c - 1] | None \<Rightarrow> all_channels)"

text \<open>The key of a note in the two maps: \<open>`${midiNote}-${channels.join(',')}`\<close>\<close>

definition noteKey_of :: "int \<Rightarrow> int list \<Rightarrow> string" where
  "noteKey_of midiNote channels =
     String_of_int midiNote @ ''-'' @ join '','' (map String_of_int channels)"

text \<open>The lines shared by \<open>sendNote\<close>, \<open>sendRawNote\<close> and \<open>releaseNotes\<close>: cancel the timer
  stored under the key, if there is one.\<close>

definition cancel_timer :: "string \<Rightarrow> World \<Rightarrow> World" where
  "cancel_timer noteKey W =
     (case map_of (activeNoteTimers (midi W)) noteKey of
        None \<Rightarrow> W
      | Some oldTimer \<Rightarrow>
          (let W1 = clearTimeout oldTimer W
           in W1\<lparr>midi := (midi W1)\<lparr>activeNoteTimers :=
                   AList.delete noteKey (activeNoteTimers (midi W1))\<rparr>\<rparr>))"

text \<open>From the note-on messages to the end of \<open>sendNote\<close> and \<open>sendRawNote\<close>, which
  read the same.\<close>

definition note_on_and_schedule :: "int \<Rightarrow> int \<Rightarrow> int list \<Rightarrow> string \<Rightarrow> real \<Rightarrow> World \<Rightarrow> World" where
  "note_on_and_schedule midiNote velocity channels noteKey duration W =
     (let W1 = send_all (map (\<lambda>channel. [0x90 + channel, midiNote, velocity]) channels) W;
          W2 = W1\<lparr>midi := (midi W1)\<lparr>noteStartTimes :=
                  AList.update noteKey (now W1) (noteStartTimes (midi W1))\<rparr>\<rparr>;
          timer = next_handle W2;
          W3 = setTimeout noteKey midiNote channels (duration * 1000) W2
      in W3\<lparr>midi := (midi W3)\<lparr>activeNoteTimers :=
               AList.update noteKey timer (activeNoteTimers (midi W3))\<rparr>\<rparr>)"

text \<open>\<open>sendNote(note, velocity, duration = 1.5)\<close>\<close>

definition sendNote :: "NoteObject \<Rightarrow> int \<Rightarrow> real option \<Rightarrow> World \<Rightarrow> World" where
  "sendNote note velocity duration_opt W =
     (if midiOut (midi W) = None then W
      else
        let duration = (case duration_opt of None \<Rightarrow> 3 / 2 | Some d \<Rightarrow> d);
            midiNote = notationToMIDI (note_notation note @ String_of_int (octave note));
            channels = strum_channels W;
            noteKey = noteKey_of midiNote channels;
            W1 = cancel_timer noteKey W
        in note_on_and_schedule midiNote velocity channels noteKey duration W1)"

text \<open>\<open>sendRawNote(midiNote, velocity, channel = null, duration = 1.5)\<close>\<close>

definition sendRawNote :: "int \<Rightarrow> int \<Rightarrow> int option \<Rightarrow> real option \<Rightarrow> World \<Rightarrow> World" where
  "sendRawNote midiNote velocity channel duration_opt W =
     (if midiOut (midi W) = None then W
      else
        let duration = (case duration_opt of None \<Rightarrow> 3 / 2 | Some d \<Rightarrow> d);
            channels = (case channel of
                          Some c \<Rightarrow> [c - 1]
                        | None \<Rightarrow> strum_channels W);
            noteKey = noteKey_of midiNote channels;
            W1 = cancel_timer noteKey W
        in note_on_and_schedule midiNote velocity channels noteKey duration W1)"

text \<open>The body of the loop of \<open>releaseNotes\<close>, and the loop.\<close>

definition release_one :: "int list \<Rightarrow> NoteObject \<Rightarrow> World \<Rightarrow> World" where
  "release_one channels note W =
     (let midiNote = notationToMIDI (note_notation note @ String_of_int (octave note));
          noteKey = noteKey_of midiNote channels;
          W1 = cancel_timer noteKey W;
          W2 = W1\<lparr>midi := (midi W1)\<lparr>noteStartTimes :=
                  AList.delete noteKey (noteStartTimes (midi W1))\<rparr>\<rparr>
      in send_all (map (\<lambda>channel. [0x80 + channel, midiNote, 0x40]) channels) W2)"

fun release_each :: "int list \<Rightarrow> NoteObject list \<Rightarrow> World \<Rightarrow> World" where
  "release_each channels [] W = W"
| "release_each channels (note # rest) W = release_each channels rest (release_one channels note W)"

text \<open>\<open>releaseNotes(notes)\<close>; a missing \<open>notes\<close> is \<open>None\<close>.\<close>

definition releaseNotes :: "NoteObject list option \<Rightarrow> World \<Rightarrow> World" where
  "releaseNotes notes_opt W =
     (case notes_opt of
        None \<Rightarrow> W
      | Some ns \<Rightarrow>
          if midiOut (midi W) = None \<or> length ns = 0 then W
          else release_each (strum_channels W) ns W)"

text \<open>\<open>sendPitchBend(bendValue)\<close>\<close>

definition sendPitchBend :: "real \<Rightarrow> World \<Rightarrow> World" where
  "sendPitchBend bendValue0 W =
     (if midiOut (midi W) = None then W
      else
        let bendValue = max (- 1) (min 1 bendValue0);
            midiBend0 = \<lfloor>(bendValue + 1) * 8192\<rfloor>;
            midiBend = max 0 (min 16383 midiBend0);
            lsb = midiBend AND 0x7F;
            msb = (drop_bit 7 midiBend) AND 0x7F;
            channels = strum_channels W
        in send_all (map (\<lambda>channel. [0xE0 + channel, lsb, msb]) channels) W)"

text \<open>\<open>close()\<close>, as far as the timers and the two maps go.\<close>

definition close_midi :: "World \<Rightarrow> World" where
  "close_midi W =
     (let W1 = fold clearTimeout (map snd (activeNoteTimers (midi W))) W
      in W1\<lparr>midi := (midi W1)\<lparr>activeNoteTimers := [], noteStartTimes := []\<rparr>\<rparr>)"

text \<open>A timeout fires: it leaves the window's pending list, and the callback scheduled by
  \<open>sendNote\<close> or \<open>sendRawNote\<close> runs: note-off on every channel if there is an output, then
  the key leaves both maps.\<close>

definition fire :: "Timer \<Rightarrow> World \<Rightarrow> World" where
  "fire t W =
     (let W1 = W\<lparr>timeouts := filter (\<lambda>u. handle u \<noteq> handle t) (timeouts W),
                 now := max (now W) (fire_at t)\<rparr>;
          W2 = (if midiOut (midi W1) \<noteq> None
                then send_all (map (\<lambda>channel. [0x80 + channel, timer_note t, 0x40])
                                 (timer_channels t)) W1
                else W1)
      in W2\<lparr>midi := (midi W2)\<lparr>
               activeNoteTimers := AList.delete (timer_key t) (activeNoteTimers (midi W2)),
               noteStartTimes := AList.delete (timer_key t) (noteStartTimes (midi W2))\<rparr>\<rparr>)"

text \<open>The timeout that fires next: of the pending ones, the one due first (the one
  created first among equals).\<close>

fun earliest :: "Timer list \<Rightarrow> Timer option" where
  "earliest [] = None"
| "earliest (t # ts) =
     (case earliest ts of
        None \<Rightarrow> Some t
      | Some u \<Rightarrow> if fire_at u < fire_at t then Some u else Some t)"

definition next_due :: "real \<Rightarrow> World \<Rightarrow> Timer option" where
  "next_due T W = earliest (filter (\<lambda>t. fire_at t \<le> T) (timeouts W))"

text \<open>Time passes until the clock reads \<open>T\<close>: every timeout due by then fires, in order.
  Firing removes the timeout that fired, so the pending list gets shorter.\<close>

function advance :: "real \<Rightarrow> World \<Rightarrow> World" where
  "advance T W =
     (case next_due T W of
        None \<Rightarrow> W\<lparr>now := max (now W) T\<rparr>
      | Some t \<Rightarrow> advance T (fire t W))"
  by pat_completeness auto
termination
proof (relation "measure (\<lambda>(T, W). length (timeouts W))")
  show "wf (measure (\<lambda>(T, W). length (timeouts W)))"
    by simp
next
  fix T :: real and W :: World and t :: Timer
  assume due: "next_due T W = Some t"
  have mem: "earliest ts = Some u \<Longrightarrow> u \<in> set ts" for ts u
    by (induction ts arbitrary: u) (auto split: option.splits if_splits)
  from due have "t \<in> set (timeouts W)"
    using mem [of "filter (\<lambda>t. fire_at t \<le> T) (timeouts W)" t]
    by (simp add: next_due_def)
  then have "length (filter (\<lambda>u. handle u \<noteq> handle t) (timeouts W)) < length (timeouts W)"
    by (intro length_filter_less [of t]) simp_all
  then show "((T, fire t W), (T, W)) \<in> measure (\<lambda>(T, W). length (timeouts W))"
    by (simp add: fire_def Let_def send_all_def)
qed

declare advance.simps [simp del]

text \<open>The operations a client can perform on the scheduler, and a run of them.\<close>

datatype MidiOp =
  Connect
| SendNote NoteObject int "real option"
| SendRawNote int int "int option" "real option"
| ReleaseNotes "NoteObject list option"
| SendPitchBend real
| Close
| Advance real

fun apply_op :: "MidiOp \<Rightarrow> World \<Rightarrow> World" where
  "apply_op Connect W = connect_output W"
| "apply_op (SendNote note velocity duration) W = sendNote note velocity duration W"
| "apply_op (SendRawNote midiNote velocity channel duration) W =
     sendRawNote midiNote velocity channel duration W"
| "apply_op (ReleaseNotes ns) W = releaseNotes ns W"
| "apply_op (SendPitchBend bendValue) W = sendPitchBend bendValue W"
| "apply_op Close W = close_midi W"
| "apply_op (Advance T) W = advance T W"

definition run_ops :: "MidiOp list \<Rightarrow> World \<Rightarrow> World" where
  "run_ops ops W = fold apply_op ops W"

text \<open>The live auto-release timers of a key.\<close>

definition live_timers :: "World \<Rightarrow> string \<Rightarrow> Timer list" where
  "live_timers W k = filter (\<lambda>t. timer_key t = k) (timeouts W)"

text \<open>The messages the output port has received.\<close>

definition sent :: "World \<Rightarrow> int list list" where
  "sent W = (case midiOut (midi W) of None \<Rightarrow> [] | Some l \<Rightarrow> l)"

text \<open>The bookkeeping invariant of the scheduler: the pending timeouts have distinct
  handles, each of them is the timer that \<open>activeNoteTimers\<close> stores under its key, and its
  handle has been handed out already.\<close>

definition timers_ok :: "World \<Rightarrow> bool" where
  "timers_ok W =
     (distinct (map handle (timeouts W)) \<and>
      (\<forall>t \<in> set (timeouts W).
         map_of (activeNoteTimers (midi W)) (timer_key t) = Some (handle t) \<and>
         handle t < next_handle W))"

text \<open>The retrigger scenario: an output is connected at time \<open>t0\<close>, a note is sent for
  0.2 s, sent again 50 ms later for 0.2 s, and the clock then runs to \<open>T\<close>.\<close>

definition retrigger_ops :: "NoteObject \<Rightarrow> int \<Rightarrow> real \<Rightarrow> real \<Rightarrow> MidiOp list" where
  "retrigger_ops nt velocity t0 T =
     [Connect, SendNote nt velocity (Some (2 / 10)), Advance (t0 + 50),
      SendNote nt velocity (Some (2 / 10)), Advance T]"

section \<open>The strummer: tap buffering, string crossing, configuration\<close>

lemmas strum_unfold = strum_def configure_def set_notes_def new_Strummer_def updateBounds_def
  stringWidth_def strum_index_def js_nth_def Let_def crossed_indices_def

lemma floor_608_9: "\<lfloor>(608 :: real) / 9\<rfloor> = 67"
  by (simp add: floor_eq_iff)

lemma upto_1_2: "[1..2] = [1, 2::int]"
  by (simp add: upto.simps)

text \<open>
  C1. Three strings over a surface of any width \<open>w > 0\<close>, threshold 0.1, and a position \<open>x\<close>
  inside string 1 (\<open>w/3 \<le> x < 2w/3\<close>): the pressures 0, 0.5, 0.5, 0.5 give no event for
  the first two samples, then one strum of string 1 when the buffer (the sample before
  the tap, the tap, and the next sample) reaches its capacity of 3, and nothing for the
  fourth sample. The velocity is the current pressure normalised against \<open>[threshold, 1]\<close>
  and mapped into \<open>[20, 127]\<close>: 67.
\<close>

theorem C1_tap_buffer_scenario:
  fixes w h x t1 t2 t3 t4 :: real
  assumes "0 < w" and "w / 3 \<le> x" and "x < 2 * w / 3"
  shows "map_option fst
           (strum_all [(x, 0, t1), (x, 1 / 2, t2), (x, 1 / 2, t3), (x, 1 / 2, t4)]
              (configure a (Some (1 / 10)) (updateBounds w h (set_notes [n0, n1, n2] new_Strummer))))
         = Some [None, None,
                 Some (Strum [(Some n1,
                   max 20 (min 127 \<lfloor>20 + max 0 (min 1 ((1 / 2 - 1 / 10) / (1 - 1 / 10 :: real))) * 107\<rfloor>))]),
                 None]
       \<and> max 20 (min 127 \<lfloor>20 + max 0 (min 1 ((1 / 2 - 1 / 10) / (1 - 1 / 10 :: real))) * 107\<rfloor>) = (67::int)"
proof -
  have "1 \<le> x * 3 / w" "x * 3 / w < 2"
    using assms by (simp_all add: field_simps)
  then have fl: "\<lfloor>x * 3 / w\<rfloor> = 1"
    by (simp add: floor_eq_iff)
  show ?thesis
    using assms(1) fl floor_608_9 by (simp add: strum_unfold)
qed

theorem C1_tap_buffer_scenario_witness:
  "map_option fst
     (strum_all [(1 / 2, 0, 1), (1 / 2, 1 / 2, 2), (1 / 2, 1 / 2, 3), (1 / 2, 1 / 2, 4)]
        (configure None (Some (1 / 10)) (updateBounds 1 1 (set_notes example_notes new_Strummer))))
   = Some [None, None,
           Some (Strum [(Some \<lparr>note_notation = ''E'', octave = 4, secondary = None\<rparr>, 67)]),
           None]"
  using C1_tap_buffer_scenario [of 1 "1 / 2" 1 2 3 4 None 1
      "\<lparr>note_notation = ''C'', octave = 4, secondary = None\<rparr>"
      "\<lparr>note_notation = ''E'', octave = 4, secondary = None\<rparr>"
      "\<lparr>note_notation = ''G'', octave = 4, secondary = None\<rparr>"]
  by (simp add: example_notes_def)

text \<open>A tap that is committed on string \<open>i\<close> by a sample with sufficient pressure leaves
  the strummer held on \<open>i\<close>.\<close>

lemma tap_commit_held_on:
  assumes run: "strum x pressure t s = Some (Some (Strum ns), s1)"
    and pending: "pendingTapIndex s = i" "i \<noteq> - 1"
    and room: "length (pressureBuffer s) < bufferMaxSamples s"
    and press: "pressureThreshold s \<le> pressure"
  shows "held_on s1 i"
proof -
  have ne: "note_list s \<noteq> []"
    using run by (auto simp: strum_def)
  have sw: "stringWidth s \<noteq> 0"
    using run ne by (auto simp: strum_def)
  have pend: "pendingTapIndex s \<noteq> - 1"
    using pending by simp
  show ?thesis
  proof (cases "lastPressure s < pressureThreshold s \<and>
      (lastStrummedIndex s = - 1 \<or> lastStrummedIndex s \<noteq> strum_index s x)")
    case True
    then have "strum x pressure t s = Some (None,
          s\<lparr>pressureBuffer := [(lastPressure s, lastTimestamp s), (pressure, t)],
            pendingTapIndex := strum_index s x, lastPressure := pressure, lastTimestamp := t\<rparr>)"
      using ne sw press by (simp add: strum_def Let_def)
    with run show ?thesis
      by simp
  next
    case False
    show ?thesis
    proof (cases "Suc (length (pressureBuffer s)) \<ge> bufferMaxSamples s")
      case full: True
      show ?thesis
      proof (cases "pressureThreshold s = 1")
        case True
        then have "strum x pressure t s = None"
          using ne sw press pend room False full by (auto simp: strum_def Let_def)
        with run show ?thesis
          by simp
      next
        case th: False
        have "lastStrummedIndex (snd (the (strum x pressure t s))) = pendingTapIndex s
          \<and> pendingTapIndex (snd (the (strum x pressure t s))) = - 1
          \<and> lastPressure (snd (the (strum x pressure t s))) = pressure
          \<and> pressureThreshold (snd (the (strum x pressure t s))) = pressureThreshold s"
          using ne sw press pend room False full th by (auto simp: strum_def Let_def)
        with run pending press show ?thesis
          by (simp add: held_on_def)
      qed
    next
      case notfull: False
      then have "fst (the (strum x pressure t s)) = None"
        using ne sw press pend room False by (auto simp: strum_def Let_def)
      with run show ?thesis
        by simp
    qed
  qed
qed

text \<open>
  C2. In a state held on string 0 (a strum was committed there and the pressure has stayed
  at or above the threshold), a sample with sufficient pressure whose position is on
  string 2 returns one strum event with strings 1 and 2, in this order, each once, each
  with velocity \<open>max(20, floor(pressure * 127))\<close>.
\<close>

theorem C2_cross_two_strings:
  assumes held: "held_on s 0"
    and press: "pressureThreshold s \<le> pressure"
    and wid: "stringWidth s \<noteq> 0"
    and idx: "strum_index s x = 2"
  shows "map_option fst (strum x pressure t s) =
           Some (Some (Strum [(Some (note_list s ! 1), max 20 \<lfloor>pressure * 127\<rfloor>),
                              (Some (note_list s ! 2), max 20 \<lfloor>pressure * 127\<rfloor>)]))"
proof -
  have len: "3 \<le> length (note_list s)"
    using idx by (simp add: strum_index_def min_def split: if_splits)
  then have ne: "note_list s \<noteq> []"
    by auto
  have nodown: "\<not> lastPressure s < pressureThreshold s"
    using held by (simp add: held_on_def)
  show ?thesis
    using held press wid idx len ne nodown
    by (simp add: strum_def Let_def held_on_def crossed_indices_def js_nth_def upto_1_2)
qed

text \<open>The witness commits a strum on string 0 by a tap of two samples on a new strummer
  with three strings, then moves to string 2.\<close>

theorem C2_cross_two_strings_witness:
  "map_option fst
     (strum (5 / 6) (1 / 2) 4
        (snd (the (strum_all [(1 / 6, 1 / 2, 1), (1 / 6, 1 / 2, 2)]
                     (set_notes example_notes new_Strummer)))))
   = Some (Some (Strum [(Some \<lparr>note_notation = ''E'', octave = 4, secondary = None\<rparr>, 63),
                        (Some \<lparr>note_notation = ''G'', octave = 4, secondary = None\<rparr>, 63)]))"
proof -
  have st: "snd (the (strum_all [(1 / 6, 1 / 2, 1), (1 / 6, 1 / 2, 2)]
                        (set_notes example_notes new_Strummer)))
         = \<lparr> width = 1, height = 1, note_list = example_notes, lastStrummedIndex = 0,
             lastPressure = 1 / 2, lastTimestamp = 2, pressureThreshold = 1 / 10,
             lastStrumVelocity = 67, pressureBuffer = [], bufferMaxSamples = 3,
             pendingTapIndex = -1 \<rparr>"
    using floor_608_9 by (simp add: strum_unfold example_notes_def)
  have fl: "\<lfloor>(127::real) / 2\<rfloor> = 63"
    by (simp add: floor_eq_iff)
  show ?thesis
    unfolding st
    using C2_cross_two_strings [of
        "\<lparr> width = 1, height = 1, note_list = example_notes, lastStrummedIndex = 0,
           lastPressure = 1 / 2, lastTimestamp = 2, pressureThreshold = 1 / 10,
           lastStrumVelocity = 67, pressureBuffer = [], bufferMaxSamples = 3,
           pendingTapIndex = -1 \<rparr>" "1 / 2" "5 / 6" 4] fl
    by (simp add: held_on_def stringWidth_def strum_index_def example_notes_def)
qed

text \<open>
  C4. The index is clamped from above only. On three strings of width 1/3 the position
  \<open>x = -1/2\<close> has index \<open>floor(-3/2) = -2\<close>, which is below 0; a tap there commits a strum
  whose note, read at index -2 of the note list, is \<open>undefined\<close>.
\<close>

theorem C4_index_below_zero:
  "strum_index (set_notes example_notes new_Strummer) (- 1 / 2) = - 2
   \<and> map_option fst
        (strum_all [(- 1 / 2, 1 / 2, 1), (- 1 / 2, 1 / 2, 2)] (set_notes example_notes new_Strummer))
      = Some [None, Some (Strum [(None, 67)])]"
proof -
  have fl: "\<lfloor>- (3::real) / 2\<rfloor> = - 2"
    by (simp add: floor_eq_iff)
  have fl2: "\<lfloor>- ((3::real) / 2)\<rfloor> = - 2"
    by (simp add: floor_eq_iff)
  show ?thesis
    using floor_608_9 fl fl2 by (simp add: strum_unfold example_notes_def)
qed

text \<open>For positions that are not negative the index is the clamped one.\<close>

lemma strum_index_clamped:
  assumes "0 \<le> x" and "0 < width s" and "note_list s \<noteq> []"
  shows "strum_index s x = max 0 (min \<lfloor>x / stringWidth s\<rfloor> (int (length (note_list s)) - 1))"
    and "0 \<le> strum_index s x" and "strum_index s x \<le> int (length (note_list s)) - 1"
proof -
  have "0 < stringWidth s"
    using assms by (simp add: stringWidth_def)
  then have "0 \<le> x / stringWidth s"
    using assms(1) by simp
  then have "0 \<le> \<lfloor>x / stringWidth s\<rfloor>"
    by simp
  moreover have "0 \<le> int (length (note_list s)) - 1"
    using assms(3) by (cases "note_list s") simp_all
  ultimately show "strum_index s x = max 0 (min \<lfloor>x / stringWidth s\<rfloor> (int (length (note_list s)) - 1))"
    and "0 \<le> strum_index s x" and "strum_index s x \<le> int (length (note_list s)) - 1"
    by (simp_all add: strum_index_def)
qed

text \<open>
  C10. The first argument of \<open>configure\<close> is not used: two calls that differ in it only
  give the same state, hence the same events and the same final state for any samples.
\<close>

theorem C10_pluck_scale_ignored:
  "configure scale1 threshold s = configure scale2 threshold s
   \<and> strum_all samples (configure scale1 threshold s)
     = strum_all samples (configure scale2 threshold s)"
  by (simp add: configure_def)

theorem C10_pluck_scale_ignored_witness:
  "strum_all [(1 / 2, 0, 1), (1 / 2, 1 / 2, 2), (1 / 2, 1 / 2, 3)]
     (configure (Some 4) (Some (1 / 10)) (set_notes example_notes new_Strummer))
   = strum_all [(1 / 2, 0, 1), (1 / 2, 1 / 2, 2), (1 / 2, 1 / 2, 3)]
     (configure (Some 9) (Some (1 / 10)) (set_notes example_notes new_Strummer))"
  using C10_pluck_scale_ignored [of "Some 4" "Some (1 / 10)" "set_notes example_notes new_Strummer"
      "Some 9" "[(1 / 2, 0, 1), (1 / 2, 1 / 2, 2), (1 / 2, 1 / 2, 3)]"]
  by simp

section \<open>Note theory: chords and frequencies\<close>

lemmas note_unfold = charAt_def js_nth_def parseInt_char_def oddNotations_def
  correctedNotations_def sharpNotations_def flatNotations_def Let_def

lemma getFrequency_A4: "getFrequencyForNotation ''A4'' = Some (440 * 2 powr (9 / 12))"
  by (simp add: getFrequencyForNotation_def note_unfold)

lemma getFrequency_A: "getFrequencyForNotation ''A'' = Some (440 * 2 powr (9 / 12))"
  by (simp add: getFrequencyForNotation_def note_unfold)

lemma getFrequency_C4: "getFrequencyForNotation ''C4'' = Some 440"
  by (simp add: getFrequencyForNotation_def note_unfold)

text \<open>
  C7. The exponent is the semitone distance from C of octave 4 (the index in the chromatic
  scale that starts at C), not from A4: \<open>"A4"\<close> and \<open>"A"\<close> give \<open>440 * 2^(9/12)\<close>, about
  740 Hz, which is not 440 Hz; 440 Hz is what \<open>"C4"\<close> gives.
\<close>

theorem C7_A4_is_not_440:
  "getFrequencyForNotation ''A4'' = Some (440 * 2 powr (9 / 12))
   \<and> getFrequencyForNotation ''A'' = Some (440 * 2 powr (9 / 12))
   \<and> getFrequencyForNotation ''A4'' \<noteq> Some 440
   \<and> getFrequencyForNotation ''C4'' = Some 440"
proof -
  have "(1::real) < 2 powr (9 / 12)"
    by (rule gr_one_powr) simp_all
  then have "440 * 2 powr (9 / 12) \<noteq> (440::real)"
    by simp
  then show ?thesis
    by (simp add: getFrequency_A4 getFrequency_A getFrequency_C4)
qed

lemma String_of_int_4: "String_of_int 4 = ''4''"
  by (simp add: String_of_int_def string_of_nat.simps [of 4])

lemma parseNotation_A4: "parseNotation ''A4'' = \<lparr>note_notation = ''A'', octave = 4, secondary = None\<rparr>"
  by (simp add: parseNotation_def charAt_def js_nth_def parseInt_char_def Let_def)

lemma indexOfNotation_A: "indexOfNotation ''A'' = 9"
  by (simp add: indexOfNotation_def sharpNotations_def flatNotations_def Let_def)

lemma intervals_m7: "map_of chordIntervals ''m7'' = Some [0, 3, 7, 10]"
  by (simp add: chordIntervals_def)

text \<open>
  C8. \<open>parseChord("Am7", 4)\<close> has the four chord tones A, C, E, G, built on octave 4 with
  the octave rolled over for each interval that passes B: A4, C5, E5, G5.
\<close>

theorem C8_parseChord_Am7:
  "parseChord ''Am7'' (Some 4) = [(Some ''A'', 4), (Some ''C'', 5), (Some ''E'', 5), (Some ''G'', 5)]"
proof -
  have split_root: "\<not> (length ''Am7'' \<ge> 2 \<and> (charAt ''Am7'' 1 = ''#'' \<or> charAt ''Am7'' 1 = ''b''))"
    by (simp add: charAt_def js_nth_def)
  have root: "js_nth ''Am7'' 0 = Some CHR ''A''"
    by (simp add: js_nth_def)
  have tones: "map (\<lambda>interval. (js_nth sharpNotations (js_rem (9 + interval) 12), 4 + (9 + interval) div 12))
                 [0, 3, 7, 10]
               = [(Some ''A'', 4), (Some ''C'', 5), (Some ''E'', 5), (Some ''G'', 5)]"
    by (simp add: js_rem_def js_nth_def sharpNotations_def)
  show ?thesis
    unfolding parseChord_def Let_def
    using tones
    by (simp only: split_root root if_False option.case prod.case String_of_int_4 append.simps
        parseNotation_A4 indexOfNotation_A intervals_m7 drop_Suc_Cons drop_0 One_nat_def
        list.distinct NoteObject.simps)
qed

section \<open>The decoder and the effect engine\<close>

lemma js_shl_small:
  assumes "0 \<le> a" and "a * 2 ^ k < 2 ^ 31" and "k < 32"
  shows "js_shl a k = a * 2 ^ k"
proof -
  have "js_shl a k = sint (push_bit k (word_of_int a :: 32 word))"
    using assms(3) by (simp add: js_shl_def)
  also have "push_bit k (word_of_int a :: 32 word) = word_of_int (push_bit k a)"
    by (simp only: of_int_push_bit)
  also have "sint (word_of_int (push_bit k a) :: 32 word) = signed_take_bit 31 (push_bit k a)"
    by (simp add: sint_sbintrunc')
  also have "push_bit k a = a * 2 ^ k"
    by (simp add: push_bit_eq_mult)
  also have "signed_take_bit 31 (a * 2 ^ k) = a * 2 ^ k"
  proof (rule signed_take_bit_int_eq_self)
    have "0 \<le> a * 2 ^ k"
      using assms(1) by simp
    then show "- (2 ^ 31) \<le> a * 2 ^ k"
      by simp
    show "a * 2 ^ k < 2 ^ 31"
      by (rule assms(2))
  qed
  finally show ?thesis .
qed

lemma byte_shift:
  assumes "0 \<le> d" and "d < 256" and "i < 3"
  shows "js_shl d (8 * i) = d * 2 ^ (8 * i)"
proof -
  have "(2::int) ^ (8 * i) \<le> 2 ^ 16"
    using assms(3) by (intro power_increasing) simp_all
  then have "d * 2 ^ (8 * i) \<le> 255 * 2 ^ 16"
    using assms by (intro mult_mono) simp_all
  then have "d * 2 ^ (8 * i) < 2 ^ 31"
    by simp
  then show ?thesis
    using assms by (intro js_shl_small) simp_all
qed

lemma combine_bytes_sum:
  assumes "\<forall>j < length idxs. 0 \<le> idxs ! j \<and> idxs ! j < int (length data)"
    and "\<forall>b \<in> set data. 0 \<le> b \<and> b < 256"
    and "i + length idxs \<le> 3"
  shows "combine_bytes data idxs i v
         = v + (\<Sum>j < length idxs. data ! nat (idxs ! j) * 2 ^ (8 * (i + j)))"
  using assms
proof (induction idxs arbitrary: i v)
  case Nil
  then show ?case by simp
next
  case (Cons k rest)
  from Cons.prems(1) have k: "0 \<le> k" "k < int (length data)"
    by auto
  then have mem: "data ! nat k \<in> set data"
    by simp
  with Cons.prems(2) have byte: "0 \<le> data ! nat k" "data ! nat k < 256"
    by auto
  from Cons.prems(3) have i: "i < 3"
    by simp
  have rest: "\<forall>j < length rest. 0 \<le> rest ! j \<and> rest ! j < int (length data)"
    using Cons.prems(1) by auto
  have step: "combine_bytes data rest (Suc i) v'
         = v' + (\<Sum>j < length rest. data ! nat (rest ! j) * 2 ^ (8 * (i + Suc j)))" for v'
    using Cons.IH [OF rest Cons.prems(2), of "Suc i" v'] Cons.prems(3) by simp
  have shift: "js_shl (data ! nat k) (8 * i) = data ! nat k * 2 ^ (8 * i)"
    using byte i by (rule byte_shift)
  have "combine_bytes data (k # rest) i v
          = combine_bytes data rest (Suc i) (v + data ! nat k * 2 ^ (8 * i))"
    using k shift by (simp add: js_nth_def)
  also have "\<dots> = v + data ! nat k * 2 ^ (8 * i)
          + (\<Sum>j < length rest. data ! nat (rest ! j) * 2 ^ (8 * (i + Suc j)))"
    by (rule step)
  also have "\<dots> = v + (\<Sum>j < length (k # rest). data ! nat ((k # rest) ! j) * 2 ^ (8 * (i + j)))"
    by (simp add: sum.lessThan_Suc_shift add_ac del: sum.lessThan_Suc)
  finally show ?case .
qed

text \<open>
  C5. For up to three bytes \<open>0..255\<close> read at valid indices and \<open>max \<noteq> min\<close>, the decoder
  returns \<open>(v - min) / (max - min)\<close> where \<open>v\<close> is the little-endian value of the selected
  bytes (byte \<open>i\<close> shifted left by \<open>8 * i\<close>). The bytes \<open>[0x9b, 0x15]\<close> at indices \<open>[0, 1]\<close>
  with range \<open>0..16383\<close> give \<open>0x159b / 16383 = 5531 / 16383\<close>, which is 0.3376 to four
  places.
\<close>

theorem C5_multi_byte_little_endian:
  "(\<forall>data byteIndices minVal maxVal.
      byteIndices \<noteq> [] \<and> length byteIndices \<le> 3
      \<and> (\<forall>j < length byteIndices. 0 \<le> byteIndices ! j \<and> byteIndices ! j < int (length data))
      \<and> (\<forall>b \<in> set data. 0 \<le> b \<and> b < 256) \<and> maxVal \<noteq> minVal
      \<longrightarrow> parseMultiByteRangeData data (Some byteIndices) (Some minVal) (Some maxVal)
          = (real_of_int (little_endian (map (\<lambda>k. data ! nat k) byteIndices)) - minVal)
            / (maxVal - minVal))
   \<and> parseMultiByteRangeData [0x9b, 0x15] (Some [0, 1]) (Some 0) (Some 16383) = 0x159b / 16383
   \<and> \<bar>parseMultiByteRangeData [0x9b, 0x15] (Some [0, 1]) (Some 0) (Some 16383) - 3376 / 10000\<bar>
       < 1 / 10000"
proof (intro conjI allI impI)
  fix data byteIndices :: "int list" and minVal maxVal :: real
  assume h: "byteIndices \<noteq> [] \<and> length byteIndices \<le> 3
      \<and> (\<forall>j < length byteIndices. 0 \<le> byteIndices ! j \<and> byteIndices ! j < int (length data))
      \<and> (\<forall>b \<in> set data. 0 \<le> b \<and> b < 256) \<and> maxVal \<noteq> minVal"
  then have "combine_bytes data byteIndices 0 0
         = 0 + (\<Sum>j < length byteIndices. data ! nat (byteIndices ! j) * 2 ^ (8 * (0 + j)))"
    by (intro combine_bytes_sum) simp_all
  then have "combine_bytes data byteIndices 0 0 = little_endian (map (\<lambda>k. data ! nat k) byteIndices)"
    by (simp add: little_endian_def)
  then show "parseMultiByteRangeData data (Some byteIndices) (Some minVal) (Some maxVal)
          = (real_of_int (little_endian (map (\<lambda>k. data ! nat k) byteIndices)) - minVal)
            / (maxVal - minVal)"
    using h by (simp add: parseMultiByteRangeData_def Let_def)
next
  have sh0: "js_shl 0x9b 0 = 0x9b"
    by (simp add: js_shl_def)
  have sh1: "js_shl 0x15 8 = 0x1500"
    by (simp add: js_shl_def)
  have v: "parseMultiByteRangeData [0x9b, 0x15] (Some [0, 1]) (Some 0) (Some 16383) = 0x159b / 16383"
    using sh0 sh1 by (simp add: parseMultiByteRangeData_def js_nth_def Let_def)
  show "parseMultiByteRangeData [0x9b, 0x15] (Some [0, 1]) (Some 0) (Some 16383) = 0x159b / 16383"
    by (rule v)
  show "\<bar>parseMultiByteRangeData [0x9b, 0x15] (Some [0, 1]) (Some 0) (Some 16383) - 3376 / 10000\<bar>
       < 1 / 10000"
    unfolding v by simp
qed

text \<open>The general statement at three bytes.\<close>

theorem C5_multi_byte_little_endian_witness:
  "parseMultiByteRangeData [0x9b, 0x15, 0x01] (Some [0, 1, 2]) (Some 0) (Some 16383)
     = (real_of_int (0x9b + 0x15 * 2 ^ 8 + 0x01 * 2 ^ 16) - 0) / (16383 - 0)"
proof -
  have "parseMultiByteRangeData [0x9b, 0x15, 0x01] (Some [0, 1, 2]) (Some 0) (Some 16383)
          = (real_of_int (little_endian (map (\<lambda>k. [0x9b, 0x15, 0x01] ! nat k) [0, 1, 2])) - 0)
            / (16383 - 0)"
  proof -
    have hyp: "[0, 1, 2] \<noteq> ([] :: int list) \<and> length [0, 1, 2 :: int] \<le> 3
      \<and> (\<forall>j < length [0, 1, 2 :: int]. 0 \<le> [0, 1, 2 :: int] ! j
             \<and> [0, 1, 2 :: int] ! j < int (length [0x9b, 0x15, 0x01 :: int]))
      \<and> (\<forall>b \<in> set [0x9b, 0x15, 0x01 :: int]. 0 \<le> b \<and> b < 256) \<and> (16383 :: real) \<noteq> 0"
      by (simp add: less_Suc_eq numeral_3_eq_3 nth_Cons')
    from C5_multi_byte_little_endian
    have "[0, 1, 2] \<noteq> ([] :: int list) \<and> length [0, 1, 2 :: int] \<le> 3
      \<and> (\<forall>j < length [0, 1, 2 :: int]. 0 \<le> [0, 1, 2 :: int] ! j
             \<and> [0, 1, 2 :: int] ! j < int (length [0x9b, 0x15, 0x01 :: int]))
      \<and> (\<forall>b \<in> set [0x9b, 0x15, 0x01 :: int]. 0 \<le> b \<and> b < 256) \<and> (16383 :: real) \<noteq> 0
      \<longrightarrow> parseMultiByteRangeData [0x9b, 0x15, 0x01] (Some [0, 1, 2]) (Some 0) (Some 16383)
          = (real_of_int (little_endian (map (\<lambda>k. [0x9b, 0x15, 0x01] ! nat k) [0, 1, 2])) - 0)
            / (16383 - 0)"
      by blast
    with hyp show ?thesis
      by (rule rev_mp)
  qed
  then show ?thesis
    by (simp add: little_endian_def lessThan_Suc numeral_3_eq_3)
qed

text \<open>The value is not 0.3403 to three places.\<close>

theorem C5_approximation_counterexample:
  "\<not> \<bar>parseMultiByteRangeData [0x9b, 0x15] (Some [0, 1]) (Some 0) (Some 16383) - 3403 / 10000\<bar>
       < 1 / 1000"
proof -
  have sh0: "js_shl 0x9b 0 = 0x9b"
    by (simp add: js_shl_def)
  have sh1: "js_shl 0x15 8 = 0x1500"
    by (simp add: js_shl_def)
  have v: "parseMultiByteRangeData [0x9b, 0x15] (Some [0, 1]) (Some 0) (Some 16383) = 5531 / 16383"
    using sh0 sh1 by (simp add: parseMultiByteRangeData_def js_nth_def Let_def)
  show ?thesis
    unfolding v by simp
qed

text \<open>
  C6. Central spread with multiplier 1, any curve exponent and any \<open>min \<le> max\<close>: the input
  0.5 gives \<open>max\<close>, the inputs 0 and 1 give \<open>min\<close> (exactly, over the reals).
\<close>

theorem C6_central_spread:
  assumes "minVal \<le> maxVal"
  shows "calculateEffectValue (1 / 2) minVal maxVal (Some 1) (Some curve) (Some ''central'') = Some maxVal
       \<and> calculateEffectValue 0 minVal maxVal (Some 1) (Some curve) (Some ''central'') = Some minVal
       \<and> calculateEffectValue 1 minVal maxVal (Some 1) (Some curve) (Some ''central'') = Some minVal"
  by (simp add: calculateEffectValue_def applyCurve_def Let_def)

theorem C6_central_spread_witness:
  "calculateEffectValue (1 / 2) (- 1) 1 (Some 1) (Some 4) (Some ''central'') = Some 1
   \<and> calculateEffectValue 0 (- 1) 1 (Some 1) (Some 4) (Some ''central'') = Some (- 1)
   \<and> calculateEffectValue 1 (- 1) 1 (Some 1) (Some 4) (Some ''central'') = Some (- 1)"
  using C6_central_spread [of "- 1" 1 4] by simp

section \<open>The scheduler: one live timer per key, no transport\<close>

lemma timers_ok_new: "timers_ok (new_World ch t0)"
  by (simp add: timers_ok_def new_World_def)

lemma timers_ok_connect: "timers_ok W \<Longrightarrow> timers_ok (connect_output W)"
  by (simp add: timers_ok_def connect_output_def)

lemma timers_ok_send_all: "timers_ok W \<Longrightarrow> timers_ok (send_all msgs W)"
  by (simp add: timers_ok_def send_all_def)

lemma live_timers_send_all [simp]: "live_timers (send_all msgs W) k = live_timers W k"
  by (simp add: live_timers_def send_all_def)

lemma timers_ok_start_times:
  "timers_ok W \<Longrightarrow> timers_ok (W\<lparr>midi := (midi W)\<lparr>noteStartTimes := st\<rparr>\<rparr>)"
  by (simp add: timers_ok_def)

text \<open>After the cancellation no timer of the key is pending and the key is not in the map.\<close>

lemma cancel_timer_ok:
  assumes "timers_ok W"
  shows "timers_ok (cancel_timer k W)"
    and "live_timers (cancel_timer k W) k = []"
    and "next_handle (cancel_timer k W) = next_handle W"
    and "now (cancel_timer k W) = now W"
    and "midiOut (midi (cancel_timer k W)) = midiOut (midi W)"
    and "midiStrumChannel (midi (cancel_timer k W)) = midiStrumChannel (midi W)"
proof -
  show "next_handle (cancel_timer k W) = next_handle W"
    and "now (cancel_timer k W) = now W"
    and "midiOut (midi (cancel_timer k W)) = midiOut (midi W)"
    and "midiStrumChannel (midi (cancel_timer k W)) = midiStrumChannel (midi W)"
    by (simp_all add: cancel_timer_def clearTimeout_def Let_def split: option.splits)
  show "timers_ok (cancel_timer k W)"
  proof (cases "map_of (activeNoteTimers (midi W)) k")
    case None
    with assms show ?thesis
      by (simp add: cancel_timer_def)
  next
    case (Some h)
    have "timer_key t \<noteq> k" if "t \<in> set (timeouts W)" "handle t \<noteq> h" for t
      using that assms Some by (auto simp: timers_ok_def)
    with assms Some show ?thesis
      by (auto simp: cancel_timer_def clearTimeout_def Let_def timers_ok_def distinct_map_filter)
  qed
  show "live_timers (cancel_timer k W) k = []"
  proof (cases "map_of (activeNoteTimers (midi W)) k")
    case None
    with assms have "timer_key t \<noteq> k" if "t \<in> set (timeouts W)" for t
      using that by (auto simp: timers_ok_def)
    with None show ?thesis
      by (simp add: cancel_timer_def live_timers_def filter_empty_conv)
  next
    case (Some h)
    have "handle t = h" if "t \<in> set (timeouts W)" "timer_key t = k" for t
      using that assms Some by (auto simp: timers_ok_def)
    with Some show ?thesis
      by (auto simp: cancel_timer_def clearTimeout_def Let_def live_timers_def filter_empty_conv)
  qed
qed

text \<open>Scheduling for a key without a pending timer leaves exactly the new timer for it.\<close>

lemma note_on_and_schedule_ok:
  assumes "timers_ok W" and "live_timers W k = []"
  shows "timers_ok (note_on_and_schedule m v chs k d W)"
    and "live_timers (note_on_and_schedule m v chs k d W) k
         = [\<lparr>handle = next_handle W, fire_at = now W + max 0 (d * 1000), timer_key = k,
             timer_note = m, timer_channels = chs\<rparr>]"
proof -
  have nokey: "timer_key t \<noteq> k" if "t \<in> set (timeouts W)" for t
    using that assms(2) by (auto simp: live_timers_def filter_empty_conv)
  have fresh: "handle t < next_handle W" if "t \<in> set (timeouts W)" for t
    using that assms(1) by (auto simp: timers_ok_def)
  have notin: "next_handle W \<notin> handle ` set (timeouts W)"
  proof
    assume "next_handle W \<in> handle ` set (timeouts W)"
    then obtain t where "t \<in> set (timeouts W)" and "handle t = next_handle W"
      by auto
    with fresh [of t] show False
      by simp
  qed
  show "timers_ok (note_on_and_schedule m v chs k d W)"
    using assms(1) nokey notin fresh
    by (auto simp: note_on_and_schedule_def setTimeout_def send_all_def Let_def timers_ok_def
        update_conv' less_Suc_eq)
  have "filter (\<lambda>t. timer_key t = k) (timeouts W) = []"
    using assms(2) by (simp add: live_timers_def)
  then show "live_timers (note_on_and_schedule m v chs k d W) k
         = [\<lparr>handle = next_handle W, fire_at = now W + max 0 (d * 1000), timer_key = k,
             timer_note = m, timer_channels = chs\<rparr>]"
    by (simp add: note_on_and_schedule_def setTimeout_def send_all_def Let_def live_timers_def)
qed

lemma sendNote_ok: "timers_ok W \<Longrightarrow> timers_ok (sendNote note v d W)"
  by (simp add: sendNote_def Let_def cancel_timer_ok note_on_and_schedule_ok)

lemma sendRawNote_ok: "timers_ok W \<Longrightarrow> timers_ok (sendRawNote m v c d W)"
  by (simp add: sendRawNote_def Let_def cancel_timer_ok note_on_and_schedule_ok)

lemma release_one_ok: "timers_ok W \<Longrightarrow> timers_ok (release_one chs note W)"
  by (simp add: release_one_def Let_def timers_ok_send_all timers_ok_start_times cancel_timer_ok)

lemma release_each_ok: "timers_ok W \<Longrightarrow> timers_ok (release_each chs ns W)"
  by (induction ns arbitrary: W) (simp_all add: release_one_ok)

lemma releaseNotes_ok: "timers_ok W \<Longrightarrow> timers_ok (releaseNotes ns W)"
  by (simp add: releaseNotes_def release_each_ok split: option.splits)

lemma sendPitchBend_ok: "timers_ok W \<Longrightarrow> timers_ok (sendPitchBend b W)"
  by (simp add: sendPitchBend_def Let_def timers_ok_send_all)

lemma fold_clearTimeout:
  "timeouts (fold clearTimeout hs W) = filter (\<lambda>t. handle t \<notin> set hs) (timeouts W)"
  "midi (fold clearTimeout hs W) = midi W"
  "next_handle (fold clearTimeout hs W) = next_handle W"
  by (induction hs arbitrary: W) (auto simp: clearTimeout_def intro: filter_cong)

lemma close_midi_ok: "timers_ok W \<Longrightarrow> timers_ok (close_midi W)"
proof -
  assume ok: "timers_ok W"
  have "handle t \<in> set (map snd (activeNoteTimers (midi W)))" if "t \<in> set (timeouts W)" for t
  proof -
    from ok that have "map_of (activeNoteTimers (midi W)) (timer_key t) = Some (handle t)"
      by (simp add: timers_ok_def)
    then have "(timer_key t, handle t) \<in> set (activeNoteTimers (midi W))"
      by (rule map_of_SomeD)
    then show ?thesis
      by force
  qed
  then have "timeouts (close_midi W) = []"
    by (simp add: close_midi_def Let_def fold_clearTimeout filter_empty_conv)
  then show ?thesis
    by (simp add: timers_ok_def)
qed

lemma fire_ok:
  assumes "timers_ok W" and "t \<in> set (timeouts W)"
  shows "timers_ok (fire t W)"
proof -
  have "timer_key u \<noteq> timer_key t" if "u \<in> set (timeouts W)" "handle u \<noteq> handle t" for u
  proof
    assume same: "timer_key u = timer_key t"
    from assms that(1) have "map_of (activeNoteTimers (midi W)) (timer_key u) = Some (handle u)"
      and "map_of (activeNoteTimers (midi W)) (timer_key t) = Some (handle t)"
      by (simp_all add: timers_ok_def)
    with same that(2) show False
      by simp
  qed
  with assms(1) show ?thesis
    by (auto simp: fire_def Let_def send_all_def timers_ok_def distinct_map_filter)
qed

lemma earliest_mem: "earliest ts = Some t \<Longrightarrow> t \<in> set ts"
  by (induction ts arbitrary: t) (auto split: option.splits if_splits)

lemma next_due_mem: "next_due T W = Some t \<Longrightarrow> t \<in> set (timeouts W)"
  using earliest_mem [of "filter (\<lambda>t. fire_at t \<le> T) (timeouts W)" t]
  by (simp add: next_due_def)

lemma advance_idle: "next_due T W = None \<Longrightarrow> advance T W = W\<lparr>now := max (now W) T\<rparr>"
  by (simp add: advance.simps [of T W])

lemma advance_fire: "next_due T W = Some t \<Longrightarrow> advance T W = advance T (fire t W)"
  by (simp add: advance.simps [of T W])

lemma advance_ok: "timers_ok W \<Longrightarrow> timers_ok (advance T W)"
proof (induction T W rule: advance.induct)
  case (1 T W)
  show ?case
  proof (cases "next_due T W")
    case None
    with "1.prems" show ?thesis
      by (simp add: advance_idle timers_ok_def)
  next
    case (Some t)
    then have "timers_ok (fire t W)"
      using "1.prems" by (intro fire_ok next_due_mem)
    with Some "1.IH" show ?thesis
      by (simp add: advance_fire)
  qed
qed

lemma apply_op_ok: "timers_ok W \<Longrightarrow> timers_ok (apply_op op W)"
  by (cases op)
    (simp_all add: timers_ok_connect sendNote_ok sendRawNote_ok releaseNotes_ok sendPitchBend_ok
      close_midi_ok advance_ok)

lemma run_ops_ok: "timers_ok W \<Longrightarrow> timers_ok (run_ops ops W)"
  unfolding run_ops_def by (induction ops arbitrary: W) (simp_all add: apply_op_ok)

lemma timers_ok_one_per_key:
  assumes "timers_ok W"
  shows "length (live_timers W k) \<le> 1"
proof (cases "map_of (activeNoteTimers (midi W)) k")
  case None
  with assms have "timer_key t \<noteq> k" if "t \<in> set (timeouts W)" for t
    using that by (auto simp: timers_ok_def)
  then show ?thesis
    by (simp add: live_timers_def filter_empty_conv)
next
  case (Some h)
  let ?ts = "live_timers W k"
  have "distinct (map handle ?ts)"
    using assms by (simp add: timers_ok_def live_timers_def distinct_map_filter)
  moreover have "map handle ?ts = replicate (length ?ts) h"
    using assms Some
    by (intro replicate_eqI) (auto simp: timers_ok_def live_timers_def)
  ultimately have "distinct (replicate (length ?ts) h)"
    by simp
  then show ?thesis
    by (cases "length ?ts" rule: nat.exhaust [case_names zero suc])
      (auto simp: Suc_le_eq elim: nat.exhaust [of "length ?ts - 1"])
qed

text \<open>
  C9. Without an output port each of the four send operations returns at its first line:
  the world (the messages sent, the two maps, the pending timeouts) is unchanged.
\<close>

theorem C9_no_transport_noop:
  assumes "midiOut (midi W) = None"
  shows "sendNote note velocity duration W = W
       \<and> sendRawNote midiNote velocity channel duration W = W
       \<and> sendPitchBend bendValue W = W
       \<and> releaseNotes ns W = W"
  using assms
  by (simp add: sendNote_def sendRawNote_def sendPitchBend_def releaseNotes_def split: option.splits)

lemmas midi_unfold = run_ops_def connect_output_def new_World_def sendNote_def cancel_timer_def
  note_on_and_schedule_def setTimeout_def send_all_def clearTimeout_def Let_def next_due_def
  fire_def sent_def strum_channels_def

lemma retrigger_scenario:
  fixes t0 T :: real and nt :: NoteObject and ch :: "int option"
  defines "m \<equiv> notationToMIDI (note_notation nt @ String_of_int (octave nt))"
    and "chs \<equiv> (case ch of Some c \<Rightarrow> [c - 1] | None \<Rightarrow> all_channels)"
  shows "sent (run_ops [Connect, SendNote nt velocity (Some (2 / 10)), Advance (t0 + 50),
                        SendNote nt velocity (Some (2 / 10)), Advance T] (new_World ch t0))
         = (if T < t0 + 250
            then map (\<lambda>c. [0x90 + c, m, velocity]) chs @ map (\<lambda>c. [0x90 + c, m, velocity]) chs
            else map (\<lambda>c. [0x90 + c, m, velocity]) chs @ map (\<lambda>c. [0x90 + c, m, velocity]) chs
                 @ map (\<lambda>c. [0x80 + c, m, 0x40]) chs)"
proof (cases "T < t0 + 250")
  case True
  then show ?thesis
    unfolding m_def chs_def by (simp add: midi_unfold advance.simps)
next
  case False
  then show ?thesis
    unfolding m_def chs_def by (simp add: midi_unfold advance.simps)
qed

text \<open>After \<open>sendNote\<close> or \<open>sendRawNote\<close> the key has exactly the timer just scheduled.\<close>

lemma sendNote_live_timer:
  assumes ok: "timers_ok W" and out: "midiOut (midi W) \<noteq> None"
  shows "live_timers (sendNote nt velocity (Some duration) W)
           (noteKey_of (notationToMIDI (note_notation nt @ String_of_int (octave nt))) (strum_channels W))
         = [\<lparr>handle = next_handle W, fire_at = now W + max 0 (duration * 1000),
             timer_key = noteKey_of (notationToMIDI (note_notation nt @ String_of_int (octave nt)))
                           (strum_channels W),
             timer_note = notationToMIDI (note_notation nt @ String_of_int (octave nt)),
             timer_channels = strum_channels W\<rparr>]"
proof -
  let ?m = "notationToMIDI (note_notation nt @ String_of_int (octave nt))"
  let ?k = "noteKey_of ?m (strum_channels W)"
  from out obtain l where "midiOut (midi W) = Some l"
    by auto
  then have "sendNote nt velocity (Some duration) W
             = note_on_and_schedule ?m velocity (strum_channels W) ?k duration (cancel_timer ?k W)"
    by (simp add: sendNote_def Let_def)
  then show ?thesis
    by (simp add: cancel_timer_ok(3,4) [OF ok]
        note_on_and_schedule_ok(2) [OF cancel_timer_ok(1) [OF ok, of ?k] cancel_timer_ok(2) [OF ok, of ?k]])
qed

lemma sendRawNote_live_timer:
  assumes ok: "timers_ok W" and out: "midiOut (midi W) \<noteq> None"
  shows "live_timers (sendRawNote midiNote velocity channel (Some duration) W)
           (noteKey_of midiNote (case channel of Some c \<Rightarrow> [c - 1] | None \<Rightarrow> strum_channels W))
         = [\<lparr>handle = next_handle W, fire_at = now W + max 0 (duration * 1000),
             timer_key = noteKey_of midiNote
                           (case channel of Some c \<Rightarrow> [c - 1] | None \<Rightarrow> strum_channels W),
             timer_note = midiNote,
             timer_channels = (case channel of Some c \<Rightarrow> [c - 1] | None \<Rightarrow> strum_channels W)\<rparr>]"
proof -
  let ?chs = "case channel of Some c \<Rightarrow> [c - 1] | None \<Rightarrow> strum_channels W"
  let ?k = "noteKey_of midiNote ?chs"
  from out obtain l where "midiOut (midi W) = Some l"
    by auto
  then have "sendRawNote midiNote velocity channel (Some duration) W
             = note_on_and_schedule midiNote velocity ?chs ?k duration (cancel_timer ?k W)"
    by (simp add: sendRawNote_def Let_def)
  then show ?thesis
    by (simp add: cancel_timer_ok(3,4) [OF ok]
        note_on_and_schedule_ok(2) [OF cancel_timer_ok(1) [OF ok, of ?k] cancel_timer_ok(2) [OF ok, of ?k]])
qed

text \<open>
  C3. In every world reached from a new \<open>Midi\<close> object by connecting, sending, releasing,
  closing and letting time pass, each key has at most one pending auto-release timer.
  With an output port, \<open>sendNote\<close> and \<open>sendRawNote\<close> leave for their key exactly the timer
  they schedule, due \<open>duration\<close> seconds after the call: an older one has been cancelled.
  In the retrigger scenario (a note sent for 0.2 s at \<open>t0\<close> and again at \<open>t0 + 50 ms\<close>) the
  output has received the two note-ons and nothing else at any time before \<open>t0 + 250 ms\<close>,
  in particular at \<open>t0 + 200 ms\<close>, and from \<open>t0 + 250 ms\<close> on one note-off for each channel of
  the channel set (one message when a strum channel is configured).
\<close>

theorem C3_one_live_timer_per_key:
  "(\<forall>ops ch t0 k. length (live_timers (run_ops ops (new_World ch t0)) k) \<le> 1)
   \<and> (\<forall>ops ch t0 nt velocity duration.
        let W = run_ops ops (new_World ch t0);
            midiNote = notationToMIDI (note_notation nt @ String_of_int (octave nt));
            channels = strum_channels W
        in midiOut (midi W) \<noteq> None \<longrightarrow>
           live_timers (sendNote nt velocity (Some duration) W) (noteKey_of midiNote channels)
           = [\<lparr>handle = next_handle W, fire_at = now W + max 0 (duration * 1000),
               timer_key = noteKey_of midiNote channels, timer_note = midiNote,
               timer_channels = channels\<rparr>])
   \<and> (\<forall>ops ch t0 midiNote velocity channel duration.
        let W = run_ops ops (new_World ch t0);
            channels = (case channel of Some c \<Rightarrow> [c - 1] | None \<Rightarrow> strum_channels W)
        in midiOut (midi W) \<noteq> None \<longrightarrow>
           live_timers (sendRawNote midiNote velocity channel (Some duration) W)
             (noteKey_of midiNote channels)
           = [\<lparr>handle = next_handle W, fire_at = now W + max 0 (duration * 1000),
               timer_key = noteKey_of midiNote channels, timer_note = midiNote,
               timer_channels = channels\<rparr>])
   \<and> (\<forall>ch t0 nt velocity T.
        let midiNote = notationToMIDI (note_notation nt @ String_of_int (octave nt));
            channels = (case ch of Some c \<Rightarrow> [c - 1] | None \<Rightarrow> all_channels);
            note_ons = map (\<lambda>c. [0x90 + c, midiNote, velocity]) channels;
            note_offs = map (\<lambda>c. [0x80 + c, midiNote, 0x40]) channels
        in sent (run_ops (retrigger_ops nt velocity t0 T) (new_World ch t0))
           = (if T < t0 + 250 then note_ons @ note_ons else note_ons @ note_ons @ note_offs))"
proof (intro conjI allI)
  fix ops ch t0 k
  show "length (live_timers (run_ops ops (new_World ch t0)) k) \<le> 1"
    by (intro timers_ok_one_per_key run_ops_ok timers_ok_new)
next
  fix ops ch t0 nt velocity duration
  have "timers_ok (run_ops ops (new_World ch t0))"
    by (intro run_ops_ok timers_ok_new)
  then show "let W = run_ops ops (new_World ch t0);
            midiNote = notationToMIDI (note_notation nt @ String_of_int (octave nt));
            channels = strum_channels W
        in midiOut (midi W) \<noteq> None \<longrightarrow>
           live_timers (sendNote nt velocity (Some duration) W) (noteKey_of midiNote channels)
           = [\<lparr>handle = next_handle W, fire_at = now W + max 0 (duration * 1000),
               timer_key = noteKey_of midiNote channels, timer_note = midiNote,
               timer_channels = channels\<rparr>]"
    unfolding Let_def by (intro impI sendNote_live_timer)
next
  fix ops ch t0 midiNote velocity channel duration
  have "timers_ok (run_ops ops (new_World ch t0))"
    by (intro run_ops_ok timers_ok_new)
  then show "let W = run_ops ops (new_World ch t0);
            channels = (case channel of Some c \<Rightarrow> [c - 1] | None \<Rightarrow> strum_channels W)
        in midiOut (midi W) \<noteq> None \<longrightarrow>
           live_timers (sendRawNote midiNote velocity channel (Some duration) W)
             (noteKey_of midiNote channels)
           = [\<lparr>handle = next_handle W, fire_at = now W + max 0 (duration * 1000),
               timer_key = noteKey_of midiNote channels, timer_note = midiNote,
               timer_channels = channels\<rparr>]"
    unfolding Let_def by (intro impI sendRawNote_live_timer)
next
  fix ch t0 nt velocity T
  show "let midiNote = notationToMIDI (note_notation nt @ String_of_int (octave nt));
            channels = (case ch of Some c \<Rightarrow> [c - 1] | None \<Rightarrow> all_channels);
            note_ons = map (\<lambda>c. [0x90 + c, midiNote, velocity]) channels;
            note_offs = map (\<lambda>c. [0x80 + c, midiNote, 0x40]) channels
        in sent (run_ops (retrigger_ops nt velocity t0 T) (new_World ch t0))
           = (if T < t0 + 250 then note_ons @ note_ons else note_ons @ note_ons @ note_offs)"
    unfolding Let_def retrigger_ops_def by (rule retrigger_scenario)
qed

lemma String_of_int_48: "String_of_int 48 = ''48''"
  by (simp add: String_of_int_def string_of_nat.simps [of 48] string_of_nat.simps [of 4])

lemma String_of_int_0: "String_of_int 0 = ''0''"
  by (simp add: String_of_int_def string_of_nat.simps [of 0])

lemma notationToMIDI_C4: "notationToMIDI ''C4'' = 48"
  by (simp add: notationToMIDI_def parseNotation_def note_unfold)

lemma noteKey_48_0: "noteKey_of 48 [0] = ''48-0''"
  by (simp add: noteKey_of_def String_of_int_48 String_of_int_0)

text \<open>The note C4 (pitch 48) on strum channel 1, key \<open>48-0\<close>, from time 0.\<close>

theorem C3_one_live_timer_per_key_witness:
  "midiOut (midi (run_ops [Connect] (new_World (Some 1) 0))) \<noteq> None
   \<and> live_timers
        (sendNote \<lparr>note_notation = ''C'', octave = 4, secondary = None\<rparr> 60 (Some (2 / 10))
           (run_ops [Connect] (new_World (Some 1) 0))) ''48-0''
      = [\<lparr>handle = 1, fire_at = 200, timer_key = ''48-0'', timer_note = 48, timer_channels = [0]\<rparr>]
   \<and> sent (run_ops (retrigger_ops \<lparr>note_notation = ''C'', octave = 4, secondary = None\<rparr> 60 0 200)
              (new_World (Some 1) 0))
      = [[0x90, 48, 60], [0x90, 48, 60]]
   \<and> sent (run_ops (retrigger_ops \<lparr>note_notation = ''C'', octave = 4, secondary = None\<rparr> 60 0 250)
              (new_World (Some 1) 0))
      = [[0x90, 48, 60], [0x90, 48, 60], [0x80, 48, 0x40]]"
proof -
  let ?c4 = "\<lparr>note_notation = ''C'', octave = 4, secondary = None\<rparr>"
  have W: "run_ops [Connect] (new_World (Some 1) 0)
           = \<lparr> midi = \<lparr> midiOut = Some [], midiStrumChannel = Some 1, activeNoteTimers = [],
                        noteStartTimes = [] \<rparr>,
               now = 0, timeouts = [], next_handle = 1 \<rparr>"
    by (simp add: run_ops_def connect_output_def new_World_def)
  note C3 = C3_one_live_timer_per_key
  from C3 have one: "\<forall>ops ch t0 nt velocity duration.
        let W = run_ops ops (new_World ch t0);
            midiNote = notationToMIDI (note_notation nt @ String_of_int (octave nt));
            channels = strum_channels W
        in midiOut (midi W) \<noteq> None \<longrightarrow>
           live_timers (sendNote nt velocity (Some duration) W) (noteKey_of midiNote channels)
           = [\<lparr>handle = next_handle W, fire_at = now W + max 0 (duration * 1000),
               timer_key = noteKey_of midiNote channels, timer_note = midiNote,
               timer_channels = channels\<rparr>]"
    by (elim conjE)
  from C3 have scen: "\<forall>ch t0 nt velocity T.
        let midiNote = notationToMIDI (note_notation nt @ String_of_int (octave nt));
            channels = (case ch of Some c \<Rightarrow> [c - 1] | None \<Rightarrow> all_channels);
            note_ons = map (\<lambda>c. [0x90 + c, midiNote, velocity]) channels;
            note_offs = map (\<lambda>c. [0x80 + c, midiNote, 0x40]) channels
        in sent (run_ops (retrigger_ops nt velocity t0 T) (new_World ch t0))
           = (if T < t0 + 250 then note_ons @ note_ons else note_ons @ note_ons @ note_offs)"
    by (elim conjE)
  have out: "midiOut (midi (run_ops [Connect] (new_World (Some 1) 0))) \<noteq> None"
    by (simp add: W)
  have a: "live_timers (sendNote ?c4 60 (Some (2 / 10)) (run_ops [Connect] (new_World (Some 1) 0))) ''48-0''
      = [\<lparr>handle = 1, fire_at = 200, timer_key = ''48-0'', timer_note = 48, timer_channels = [0]\<rparr>]"
    using one [rule_format, of "[Connect]" "Some 1" 0 ?c4 60 "2 / 10"] out
    by (simp add: Let_def W strum_channels_def String_of_int_4 notationToMIDI_C4 noteKey_48_0)
  have b: "sent (run_ops (retrigger_ops ?c4 60 0 200) (new_World (Some 1) 0))
      = [[0x90, 48, 60], [0x90, 48, 60]]"
    using scen [rule_format, of ?c4 "Some 1" 60 0 200]
    by (simp add: Let_def String_of_int_4 notationToMIDI_C4)
  have c: "sent (run_ops (retrigger_ops ?c4 60 0 250) (new_World (Some 1) 0))
      = [[0x90, 48, 60], [0x90, 48, 60], [0x80, 48, 0x40]]"
    using scen [rule_format, of ?c4 "Some 1" 60 0 250]
    by (simp add: Let_def String_of_int_4 notationToMIDI_C4)
  from out a b c show ?thesis
    by (intro conjI)
qed

theorem C9_no_transport_noop_witness:
  "midiOut (midi (new_World None 0)) = None
   \<and> sendNote \<lparr>note_notation = ''C'', octave = 4, secondary = None\<rparr> 60 None (new_World None 0)
       = new_World None 0
   \<and> sendRawNote 48 60 None None (new_World None 0) = new_World None 0
   \<and> sendPitchBend (1 / 2) (new_World None 0) = new_World None 0
   \<and> releaseNotes (Some [\<lparr>note_notation = ''C'', octave = 4, secondary = None\<rparr>]) (new_World None 0)
       = new_World None 0"
proof -
  have none: "midiOut (midi (new_World None 0)) = None"
    by (simp add: new_World_def)
  from C9_no_transport_noop [OF none] none show ?thesis
    by simp
qed

end
